theory Spec2Isabelle
  imports Main "HOL-Library.Monad_Syntax"
begin

section \<open>Python values and dictionaries\<close>

text \<open>
  The values that occur in game records: \<open>None\<close>, integers and (byte) strings.
  \<open>truthy\<close> is Python's truth test, \<open>py_gt a b\<close> is \<open>a > b\<close> as Python 2 evaluates it
  (the source uses \<open>iteritems\<close>): \<open>None\<close> is below everything, numbers are below strings,
  integers compare numerically and strings bytewise.
\<close>

datatype pyval = PNone | PInt int | PStr string

fun truthy :: "pyval \<Rightarrow> bool" where
  "truthy PNone = False"
| "truthy (PInt i) = (i \<noteq> 0)"
| "truthy (PStr s) = (s \<noteq> [])"

fun str_gt :: "string \<Rightarrow> string \<Rightarrow> bool" where
  "str_gt [] t = False"
| "str_gt (x # xs) [] = True"
| "str_gt (x # xs) (y # ys) = ((of_char y :: nat) < of_char x \<or> (x = y \<and> str_gt xs ys))"

fun py_gt :: "pyval \<Rightarrow> pyval \<Rightarrow> bool" where
  "py_gt PNone b = False"
| "py_gt (PInt a) PNone = True"
| "py_gt (PInt a) (PInt b) = (b < a)"
| "py_gt (PInt a) (PStr t) = False"
| "py_gt (PStr s) PNone = True"
| "py_gt (PStr s) (PInt b) = True"
| "py_gt (PStr s) (PStr t) = str_gt s t"

function string_of_nat :: "nat \<Rightarrow> string" where
  "string_of_nat n =
     (if n < 10 then [char_of (48 + n)]
      else string_of_nat (n div 10) @ [char_of (48 + n mod 10)])"
  by pat_completeness auto
termination
  by (relation "measure (\<lambda>n. n)") auto

declare string_of_nat.simps [simp del]

text \<open>Python's \<open>str(v)\<close>.\<close>

fun py_str :: "pyval \<Rightarrow> string" where
  "py_str PNone = ''None''"
| "py_str (PInt i) =
     (if i < 0 then CHR ''-'' # string_of_nat (nat (- i)) else string_of_nat (nat i))"
| "py_str (PStr s) = s"

text \<open>
  A dictionary is an association list. \<open>getitem d k\<close> is \<open>d[k]\<close>, with \<open>None\<close> for the
  \<open>KeyError\<close>; \<open>key_in k d\<close> is \<open>k in d\<close>.
\<close>

type_synonym pydict = "(string \<times> pyval) list"

definition getitem :: "pydict \<Rightarrow> string \<Rightarrow> pyval option" where
  "getitem d k = map_of d k"

definition key_in :: "string \<Rightarrow> pydict \<Rightarrow> bool" where
  "key_in k d = (map_of d k \<noteq> None)"

section \<open>The local store (module \<open>pga\<close>)\<close>

text \<open>
  Modelled from the spec: the module \<open>lutris.pga\<close> is not among the sources. A row
  of the store is a library entry with the fields of the spec's LibraryEntry, under the
  keys the source uses, and its identifier.
\<close>

record game_row =
  g_id :: int
  g_name :: pyval
  g_slug :: pyval
  g_runner :: pyval
  g_year :: pyval
  g_updated :: pyval
  g_steamid :: pyval
  g_installed :: pyval
  g_configpath :: pyval

type_synonym store = "game_row list"

text \<open>Modelled from the spec: a row as the dictionary that \<open>pga\<close> hands out.\<close>

definition row_dict :: "game_row \<Rightarrow> pydict" where
  "row_dict r =
     [(''id'', PInt (g_id r)), (''name'', g_name r), (''slug'', g_slug r),
      (''runner'', g_runner r), (''year'', g_year r), (''updated'', g_updated r),
      (''steamid'', g_steamid r), (''installed'', g_installed r),
      (''configpath'', g_configpath r)]"

text \<open>Modelled from the spec: \<open>pga.get_games()\<close> lists the entries of the store.\<close>

definition get_games :: "store \<Rightarrow> pydict list" where
  "get_games st = map row_dict st"

text \<open>
  Modelled from the spec: \<open>pga.get_game_by_field(value, field)\<close> returns the first
  entry whose field has the value, or the empty dictionary when there is none.
\<close>

definition get_game_by_field :: "store \<Rightarrow> pyval \<Rightarrow> string \<Rightarrow> pydict" where
  "get_game_by_field st v field =
     (case find (\<lambda>r. getitem (row_dict r) field = Some v) st of
        None \<Rightarrow> []
      | Some r \<Rightarrow> row_dict r)"

text \<open>
  Modelled from the spec: \<open>pga.add_games_bulk(games)\<close> inserts one row per record, in
  order, each under a fresh identifier (one more than the greatest in use), and returns
  the identifiers of the rows it created. A field that the record lacks is \<open>None\<close>.
\<close>

definition next_id :: "store \<Rightarrow> int" where
  "next_id st = foldr max (map g_id st) 0 + 1"

definition field_or_none :: "pydict \<Rightarrow> string \<Rightarrow> pyval" where
  "field_or_none d k = (case map_of d k of None \<Rightarrow> PNone | Some v \<Rightarrow> v)"

definition new_row :: "int \<Rightarrow> pydict \<Rightarrow> game_row" where
  "new_row i d =
     \<lparr>g_id = i, g_name = field_or_none d ''name'', g_slug = field_or_none d ''slug'',
      g_runner = field_or_none d ''runner'', g_year = field_or_none d ''year'',
      g_updated = field_or_none d ''updated'', g_steamid = field_or_none d ''steamid'',
      g_installed = field_or_none d ''installed'',
      g_configpath = field_or_none d ''configpath''\<rparr>"

fun add_games_bulk :: "pydict list \<Rightarrow> store \<Rightarrow> int list \<times> store" where
  "add_games_bulk [] st = ([], st)"
| "add_games_bulk (d # ds) st =
     (let i = next_id st; (ids, st') = add_games_bulk ds (st @ [new_row i d])
      in (i # ids, st'))"

text \<open>
  Modelled from the spec: \<open>pga.add_or_update(name, runner, slug, year, updated,
  steamid)\<close> is the upsert keyed by slug. It writes the fields to the first row with the
  slug and returns that row's identifier; when there is no such row it inserts one.
\<close>

fun update_first :: "('a \<Rightarrow> bool) \<Rightarrow> ('a \<Rightarrow> 'a) \<Rightarrow> 'a list \<Rightarrow> 'a list" where
  "update_first P f [] = []"
| "update_first P f (x # xs) = (if P x then f x # xs else x # update_first P f xs)"

record upsert_args =
  au_name :: pyval
  au_runner :: pyval
  au_slug :: pyval
  au_year :: pyval
  au_updated :: pyval
  au_steamid :: pyval

definition write_args :: "upsert_args \<Rightarrow> game_row \<Rightarrow> game_row" where
  "write_args a r =
     r\<lparr>g_name := au_name a, g_runner := au_runner a, g_year := au_year a,
       g_updated := au_updated a, g_steamid := au_steamid a\<rparr>"

definition add_or_update :: "upsert_args \<Rightarrow> store \<Rightarrow> int \<times> store" where
  "add_or_update a st =
     (case find (\<lambda>r. g_slug r = au_slug a) st of
        Some r \<Rightarrow> (g_id r, update_first (\<lambda>r. g_slug r = au_slug a) (write_args a) st)
      | None \<Rightarrow>
          (next_id st,
           st @ [\<lparr>g_id = next_id st, g_name = au_name a, g_slug = au_slug a,
                  g_runner = au_runner a, g_year = au_year a, g_updated = au_updated a,
                  g_steamid = au_steamid a, g_installed = PNone,
                  g_configpath = PNone\<rparr>]))"

text \<open>
  Modelled from the spec: \<open>steam.mark_as_installed(steamid, runner_name, game_info)\<close>
  (module \<open>lutris.runners.steam\<close>, not among the sources) is the mark-installed
  request of the spec: it sets the installed flag and the runner of the entry given as
  context and returns that entry's identifier. It raises when the context carries no
  identifier.
\<close>

definition mark_as_installed ::
    "string \<Rightarrow> string \<Rightarrow> pydict \<Rightarrow> store \<Rightarrow> (int \<times> store) option" where
  "mark_as_installed steamid runner_name game_info st =
     (case getitem game_info ''id'' of
        Some (PInt i) \<Rightarrow>
          Some (i, map (\<lambda>r. if g_id r = i
                             then r\<lparr>g_installed := PInt 1, g_runner := PStr runner_name\<rparr>
                             else r) st)
      | _ \<Rightarrow> None)"

text \<open>
  Modelled from the spec: \<open>steam.mark_as_uninstalled(game_info)\<close> is the
  mark-uninstalled request: it clears the installed flag of the entry given as context
  and returns that entry's identifier.
\<close>

definition mark_as_uninstalled :: "pydict \<Rightarrow> store \<Rightarrow> (int \<times> store) option" where
  "mark_as_uninstalled game_info st =
     (case getitem game_info ''id'' of
        Some (PInt i) \<Rightarrow>
          Some (i, map (\<lambda>r. if g_id r = i then r\<lparr>g_installed := PInt 0\<rparr> else r) st)
      | _ \<Rightarrow> None)"

section \<open>Calls to the collaborators\<close>

text \<open>
  Every call that writes to the store or fetches media is recorded, in order, with its
  arguments.
\<close>

datatype effect =
    Add_games_bulk "pydict list"
  | Add_or_update upsert_args
  | Download_icon pyval string bool
  | Mark_as_installed string string pydict
  | Mark_as_uninstalled pydict

section \<open>Remote reconciliation (\<open>sync.py\<close>)\<close>

text \<open>\<open>[game['slug'] for game in library]\<close>\<close>

fun slugs_of :: "pydict list \<Rightarrow> pyval list option" where
  "slugs_of [] = Some []"
| "slugs_of (game # rest) =
     do { slug \<leftarrow> getitem game ''slug''; ss \<leftarrow> slugs_of rest; Some (slug # ss) }"

text \<open>The loop of \<open>sync_missing_games\<close> that collects the insert records.\<close>

fun missing_records :: "pyval set \<Rightarrow> pydict list \<Rightarrow> pydict list option" where
  "missing_records not_in_local [] = Some []"
| "missing_records not_in_local (game # rest) =
     do {
       slug \<leftarrow> getitem game ''slug'';
       if slug \<in> not_in_local then
         do {
           name \<leftarrow> getitem game ''name'';
           year \<leftarrow> getitem game ''year'';
           updated \<leftarrow> getitem game ''updated'';
           steamid \<leftarrow> getitem game ''steamid'';
           missing \<leftarrow> missing_records not_in_local rest;
           Some ([(''name'', name), (''slug'', slug), (''year'', year),
                  (''updated'', updated), (''steamid'', steamid)] # missing)
         }
       else missing_records not_in_local rest
     }"

definition sync_missing_games ::
    "pyval set \<Rightarrow> pydict list \<Rightarrow> store \<Rightarrow> (int set \<times> store \<times> effect list) option" where
  "sync_missing_games not_in_local remote_library st =
     (if not_in_local = {} then Some ({}, st, [])
      else
        do {
          missing \<leftarrow> missing_records not_in_local remote_library;
          let (missing_ids, st') = add_games_bulk missing st;
          Some (set missing_ids, st', [Add_games_bulk missing])
        })"

text \<open>
  The inner loop of \<open>sync_game_details\<close> over the fields of the local game, on the
  flags \<open>(sync, sync_icons)\<close>.
\<close>

fun sync_new_fields :: "pydict \<Rightarrow> pydict \<Rightarrow> bool \<times> bool \<Rightarrow> bool \<times> bool" where
  "sync_new_fields [] game flags = flags"
| "sync_new_fields ((key, v) # rest) game flags =
     (if truthy v \<or> \<not> key_in key game then sync_new_fields rest game flags
      else if truthy (the (getitem game key)) then sync_new_fields rest game (True, False)
      else sync_new_fields rest game flags)"

text \<open>
  The decision of \<open>sync_game_details\<close> for one remote game with a local game: the pair
  \<open>(sync, sync_icons)\<close> on reaching \<open>if not sync\<close>.
\<close>

definition sync_flags :: "pydict \<Rightarrow> pydict \<Rightarrow> (bool \<times> bool) option" where
  "sync_flags local_game game =
     do {
       remote_updated \<leftarrow> getitem game ''updated'';
       local_updated \<leftarrow> getitem local_game ''updated'';
       if py_gt remote_updated local_updated then Some (True, True)
       else Some (sync_new_fields local_game game (False, True))
     }"

text \<open>One iteration of the loop of \<open>sync_game_details\<close>.\<close>

definition sync_game ::
    "pydict \<Rightarrow> store \<Rightarrow> int set \<Rightarrow> (int set \<times> store \<times> effect list) option" where
  "sync_game game st updated =
     do {
       slug \<leftarrow> getitem game ''slug'';
       let local_game = get_game_by_field st slug ''slug'';
       if local_game = [] then Some (updated, st, [])
       else
         do {
           (sync, sync_icons) \<leftarrow> sync_flags local_game game;
           if \<not> sync then Some (updated, st, [])
           else
             do {
               name \<leftarrow> getitem local_game ''name'';
               runner \<leftarrow> getitem local_game ''runner'';
               year \<leftarrow> getitem game ''year'';
               remote_updated \<leftarrow> getitem game ''updated'';
               steamid \<leftarrow> getitem game ''steamid'';
               let args = \<lparr>au_name = name, au_runner = runner, au_slug = slug,
                            au_year = year, au_updated = remote_updated,
                            au_steamid = steamid\<rparr>;
               let (game_id, st') = add_or_update args st;
               if sync_icons then
                 Some (insert game_id updated, st',
                       [Add_or_update args, Download_icon slug ''banner'' True,
                        Download_icon slug ''icon'' True])
               else Some (updated, st', [Add_or_update args])
             }
         }
     }"

fun sync_games ::
    "pydict list \<Rightarrow> store \<Rightarrow> int set \<Rightarrow> (int set \<times> store \<times> effect list) option" where
  "sync_games [] st updated = Some (updated, st, [])"
| "sync_games (game # rest) st updated =
     do {
       (updated1, st1, log1) \<leftarrow> sync_game game st updated;
       (updated2, st2, log2) \<leftarrow> sync_games rest st1 updated1;
       Some (updated2, st2, log1 @ log2)
     }"

definition sync_game_details ::
    "pydict list \<Rightarrow> store \<Rightarrow> (int set \<times> store \<times> effect list) option" where
  "sync_game_details remote_library st =
     (if remote_library = [] then Some ({}, st, [])
      else sync_games remote_library st {})"

text \<open>
  \<open>sync_from_remote\<close>: \<open>library\<close> is \<open>self.library\<close>, \<open>fetch\<close> is the outcome of
  \<open>api.get_library()\<close> (\<open>Inl\<close> when it raises). The result carries the pair
  \<open>(added, updated)\<close>, the new \<open>self.library\<close>, the store and the calls made.
\<close>

definition sync_from_remote ::
    "pydict list \<Rightarrow> string + pydict list \<Rightarrow> store \<Rightarrow>
     ((int set \<times> int set) \<times> pydict list \<times> store \<times> effect list) option" where
  "sync_from_remote library fetch st =
     do {
       local_slugs \<leftarrow> slugs_of library;
       let remote_library = (case fetch of Inl e \<Rightarrow> [] | Inr games \<Rightarrow> games);
       remote_slugs \<leftarrow> slugs_of remote_library;
       let not_in_local = set remote_slugs - set local_slugs;
       (added, st1, log1) \<leftarrow> sync_missing_games not_in_local remote_library st;
       (updated, st2, log2) \<leftarrow> sync_game_details remote_library st1;
       Some ((added, updated),
             (if added \<noteq> {} then get_games st2 else library), st2, log1 @ log2)
     }"

section \<open>Installation state (\<open>sync.py\<close>)\<close>

text \<open>
  Modelled from the spec: the runner classes \<open>steam\<close> and \<open>winesteam\<close> and the
  manifest reader (\<open>lutris.util.steam\<close>) are not among the sources. A runner is given
  by what the source asks of it: whether it is installed, and its steamapps directories,
  each as the list of the manifest records (Steam id, installed flag) read from it.
\<close>

record appmanifest =
  am_steamid :: pyval
  am_is_installed :: bool

record steam_runner =
  r_is_installed :: bool
  r_steamapps_dirs :: "appmanifest list list"

definition get_installed_steamapps :: "steam_runner \<Rightarrow> pyval list" where
  "get_installed_steamapps runner =
     (if \<not> r_is_installed runner then []
      else concat (map (\<lambda>steamapps_path.
                          map am_steamid (filter am_is_installed steamapps_path))
                       (r_steamapps_dirs runner)))"

text \<open>One iteration of the loop of \<open>sync_steam_local\<close>.\<close>

definition sync_steam_game ::
    "steam_runner \<Rightarrow> steam_runner \<Rightarrow> pyval list \<Rightarrow> pyval list \<Rightarrow> pydict \<Rightarrow>
     int set \<times> int set \<Rightarrow> store \<Rightarrow> ((int set \<times> int set) \<times> store \<times> effect list) option" where
  "sync_steam_game steamrunner winesteamrunner installed_steamapps installed_winesteamapps
       game_info sets st =
     (case sets of (installed, uninstalled) \<Rightarrow>
     do {
       runner \<leftarrow> getitem game_info ''runner'';
       sid \<leftarrow> getitem game_info ''steamid'';
       let steamid = py_str sid;
       let installed_in_steam = (PStr steamid \<in> set installed_steamapps);
       let installed_in_winesteam = (PStr steamid \<in> set installed_winesteamapps);
       let set_installed = (\<lambda>runner_name.
             do {
               (game_id, st') \<leftarrow> mark_as_installed steamid runner_name game_info st;
               Some ((insert game_id installed, uninstalled), st',
                     [Mark_as_installed steamid runner_name game_info])
             });
       is_installed \<leftarrow> getitem game_info ''installed'';
       if \<not> truthy is_installed then
         (if installed_in_steam then set_installed ''steam''
          else if installed_in_winesteam then
            do {
              configpath \<leftarrow> getitem game_info ''configpath'';
              if \<not> truthy configpath then Some ((installed, uninstalled), st, [])
              else set_installed ''winesteam''
            }
          else Some ((installed, uninstalled), st, []))
       else if \<not> (installed_in_steam \<or> installed_in_winesteam) then
         (if runner \<notin> set [PStr ''steam'', PStr ''winesteam'']
            then Some ((installed, uninstalled), st, [])
          else if runner = PStr ''steam'' \<and> \<not> r_is_installed steamrunner
            then Some ((installed, uninstalled), st, [])
          else if runner = PStr ''winesteam'' \<and> \<not> r_is_installed winesteamrunner
            then Some ((installed, uninstalled), st, [])
          else
            do {
              (game_id, st') \<leftarrow> mark_as_uninstalled game_info st;
              Some ((installed, insert game_id uninstalled), st',
                    [Mark_as_uninstalled game_info])
            })
       else Some ((installed, uninstalled), st, [])
     })"

fun sync_steam_games ::
    "steam_runner \<Rightarrow> steam_runner \<Rightarrow> pyval list \<Rightarrow> pyval list \<Rightarrow> pydict list \<Rightarrow>
     int set \<times> int set \<Rightarrow> store \<Rightarrow> ((int set \<times> int set) \<times> store \<times> effect list) option" where
  "sync_steam_games sr wr isa iwa [] sets st = Some (sets, st, [])"
| "sync_steam_games sr wr isa iwa (game_info # rest) sets st =
     do {
       (sets1, st1, log1) \<leftarrow> sync_steam_game sr wr isa iwa game_info sets st;
       (sets2, st2, log2) \<leftarrow> sync_steam_games sr wr isa iwa rest sets1 st1;
       Some (sets2, st2, log1 @ log2)
     }"

definition sync_steam_local ::
    "pydict list \<Rightarrow> steam_runner \<Rightarrow> steam_runner \<Rightarrow> store \<Rightarrow>
     ((int set \<times> int set) \<times> store \<times> effect list) option" where
  "sync_steam_local library steamrunner winesteamrunner st =
     (let installed_steamapps = get_installed_steamapps steamrunner;
          installed_winesteamapps = get_installed_steamapps winesteamrunner
      in sync_steam_games steamrunner winesteamrunner installed_steamapps
           installed_winesteamapps library ({}, {}) st)"


section \<open>The orchestrator\<close>

text \<open>\<open>Sync.__init__\<close>: the library of a new \<open>Sync\<close> object.\<close>

definition Sync_init :: "store \<Rightarrow> pydict list" where
  "Sync_init st = get_games st"


section \<open>Example inputs\<close>

text \<open>A library entry for Doom, last updated at 100, without a year.\<close>

definition doom_local :: game_row where
  "doom_local =
     \<lparr>g_id = 1, g_name = PStr ''Doom'', g_slug = PStr ''doom'', g_runner = PNone,
      g_year = PNone, g_updated = PInt 100, g_steamid = PNone, g_installed = PInt 0,
      g_configpath = PNone\<rparr>"

text \<open>An older remote entry for the same slug that differs in the name only.\<close>

definition doom_remaster :: pydict where
  "doom_remaster =
     [(''name'', PStr ''Doom (remaster)''), (''slug'', PStr ''doom''), (''year'', PNone),
      (''updated'', PInt 50), (''steamid'', PNone)]"

text \<open>An older remote entry for the same slug that knows the year.\<close>

definition doom_backfill :: pydict where
  "doom_backfill =
     [(''name'', PStr ''Doom''), (''slug'', PStr ''doom''), (''year'', PInt 1993),
      (''updated'', PInt 50), (''steamid'', PNone)]"

text \<open>Two remote entries that share the slug \<open>doom\<close>, the second one newer.\<close>

definition doom_old :: pydict where
  "doom_old =
     [(''name'', PStr ''Doom''), (''slug'', PStr ''doom''), (''year'', PInt 1993),
      (''updated'', PInt 100), (''steamid'', PNone)]"

definition doom_new :: pydict where
  "doom_new =
     [(''name'', PStr ''Doom''), (''slug'', PStr ''doom''), (''year'', PNone),
      (''updated'', PInt 200), (''steamid'', PNone)]"

text \<open>A native Linux game whose Steam id is installed in Steam, not yet installed locally.\<close>

definition quake_linux :: game_row where
  "quake_linux =
     \<lparr>g_id = 2, g_name = PStr ''Quake'', g_slug = PStr ''quake'', g_runner = PStr ''linux'',
      g_year = PInt 1996, g_updated = PInt 100, g_steamid = PInt 42, g_installed = PInt 0,
      g_configpath = PNone\<rparr>"

text \<open>A Wine Steam game, installed locally, without a configuration path.\<close>

definition hexen_winesteam :: game_row where
  "hexen_winesteam =
     \<lparr>g_id = 3, g_name = PStr ''Hexen'', g_slug = PStr ''hexen'',
      g_runner = PStr ''winesteam'', g_year = PInt 1995, g_updated = PInt 100,
      g_steamid = PInt 70, g_installed = PInt 1, g_configpath = PNone\<rparr>"

text \<open>
  A Steam with app 42 installed, a Wine Steam whose manifest of app 70 is no longer
  installed, and a runner that is not present on the host.
\<close>

definition steam_host :: steam_runner where
  "steam_host =
     \<lparr>r_is_installed = True,
      r_steamapps_dirs = [[\<lparr>am_steamid = PStr ''42'', am_is_installed = True\<rparr>]]\<rparr>"

definition winesteam_host :: steam_runner where
  "winesteam_host =
     \<lparr>r_is_installed = True,
      r_steamapps_dirs = [[\<lparr>am_steamid = PStr ''70'', am_is_installed = False\<rparr>]]\<rparr>"

definition absent_runner :: steam_runner where
  "absent_runner = \<lparr>r_is_installed = False, r_steamapps_dirs = []\<rparr>"

text \<open>A remote entry for a game that the library does not have.\<close>

definition quake_remote :: pydict where
  "quake_remote =
     [(''name'', PStr ''Quake''), (''slug'', PStr ''quake''), (''year'', PInt 1996),
      (''updated'', PInt 150), (''steamid'', PInt 2310)]"





section \<open>Properties of the values\<close>

lemma str_gt_asym: "str_gt s t \<Longrightarrow> \<not> str_gt t s"
  by (induction s t rule: str_gt.induct) auto

lemma py_gt_asym: "py_gt a b \<Longrightarrow> \<not> py_gt b a"
  by (cases a; cases b) (auto dest: str_gt_asym)

lemma py_gt_irrefl: "\<not> py_gt a a"
  using py_gt_asym by blast

section \<open>The update decision\<close>

lemma sync_new_fields_step:
  "sync_new_fields ((k, v) # rest) game flags =
     sync_new_fields rest game
       (if \<not> truthy v \<and> (\<exists>w. getitem game k = Some w \<and> truthy w) then (True, False) else flags)"
  by (cases "getitem game k") (auto simp: key_in_def getitem_def)

lemma sync_new_fields_eq:
  "sync_new_fields local_game game flags =
     (if \<exists>(k, v) \<in> set local_game. \<not> truthy v \<and> (\<exists>w. getitem game k = Some w \<and> truthy w)
      then (True, False) else flags)"
proof (induction local_game arbitrary: flags)
  case Nil
  then show ?case by simp
next
  case (Cons p rest)
  obtain k v where p: "p = (k, v)" by (cases p)
  show ?case
    unfolding p sync_new_fields_step Cons by auto
qed



text \<open>
  Claim C2. Every entry marked for update is upserted and its identifier is collected
  into \<open>updated\<close>. The source adds the identifier inside \<open>if sync_icons:\<close>, so an update
  on the backfill path is written to the store and left out of the result: the local
  Doom without a year, against the older remote entry with the year 1993, is upserted
  while \<open>sync_game_details\<close> returns the empty set.
\<close>

theorem backfill_update_not_collected:
  "sync_flags (row_dict doom_local) doom_backfill = Some (True, False) \<and>
   sync_game_details [doom_backfill] [doom_local] =
     Some ({}, [doom_local\<lparr>g_year := PInt 1993, g_updated := PInt 50\<rparr>],
           [Add_or_update \<lparr>au_name = PStr ''Doom'', au_runner = PNone, au_slug = PStr ''doom'',
                           au_year = PInt 1993, au_updated = PInt 50, au_steamid = PNone\<rparr>])"
  by (simp add: sync_game_details_def sync_game_def doom_backfill_def doom_local_def
      getitem_def get_game_by_field_def row_dict_def sync_flags_def key_in_def
      add_or_update_def write_args_def)

section \<open>Failure of the remote fetch\<close>

lemma slugs_of_get_games: "slugs_of (get_games st) = Some (map g_slug st)"
  by (induction st) (auto simp: get_games_def row_dict_def getitem_def)

text \<open>
  Claim C4. When \<open>api.get_library()\<close> raises, \<open>sync_from_remote\<close> returns two empty sets
  without raising, makes no call to the store and leaves the store and the library as
  they are. (The entries of the library carry a slug, as every row of the store does.)
\<close>

theorem sync_from_remote_fetch_failure:
  assumes "slugs_of library = Some local_slugs"
  shows "sync_from_remote library (Inl e) st = Some (({}, {}), library, st, [])"
  using assms by (simp add: sync_from_remote_def sync_missing_games_def sync_game_details_def)

theorem sync_from_remote_fetch_failure_witness:
  "slugs_of (get_games [doom_local]) = Some [PStr ''doom''] \<and>
   sync_from_remote (get_games [doom_local]) (Inl ''timeout'') [doom_local] =
     Some (({}, {}), get_games [doom_local], [doom_local], [])"
  using sync_from_remote_fetch_failure
          [of "get_games [doom_local]" "[PStr ''doom'']" "''timeout''" "[doom_local]"]
  by (simp add: slugs_of_get_games doom_local_def)

section \<open>The batch of insert records\<close>




section \<open>Installation state\<close>

lemma sync_steam_game_log:
  assumes "sync_steam_game sr wr isa iwa gi sets st = Some (sets', st', log)"
  shows "\<exists>runner sid inst.
        getitem gi ''runner'' = Some runner \<and> getitem gi ''steamid'' = Some sid \<and>
        getitem gi ''installed'' = Some inst \<and>
        log = (if \<not> truthy inst then
                 (if PStr (py_str sid) \<in> set isa then [Mark_as_installed (py_str sid) ''steam'' gi]
                  else if PStr (py_str sid) \<in> set iwa \<and> (\<exists>cp. getitem gi ''configpath'' = Some cp \<and> truthy cp)
                    then [Mark_as_installed (py_str sid) ''winesteam'' gi]
                  else [])
               else if PStr (py_str sid) \<notin> set isa \<and> PStr (py_str sid) \<notin> set iwa \<and>
                   (runner = PStr ''steam'' \<and> r_is_installed sr \<or>
                    runner = PStr ''winesteam'' \<and> r_is_installed wr)
                 then [Mark_as_uninstalled gi]
               else [])"
proof -
  obtain installed uninstalled where sets: "sets = (installed, uninstalled)" by (cases sets)
  from assms obtain runner sid inst where
    r: "getitem gi ''runner'' = Some runner" and s: "getitem gi ''steamid'' = Some sid"
    and i: "getitem gi ''installed'' = Some inst"
    unfolding sync_steam_game_def sets by (auto simp: Let_def split: bind_splits)
  show ?thesis
    using assms unfolding sync_steam_game_def sets
    by (auto simp add: r s i Let_def split: if_splits bind_splits prod.splits)
qed

lemma sync_steam_game_uninstall:
  assumes "sync_steam_game sr wr isa iwa gi sets st = Some (sets', st', log)"
  shows "Mark_as_uninstalled x \<in> set log \<longleftrightarrow>
     x = gi \<and>
     (\<exists>runner sid inst.
        getitem x ''runner'' = Some runner \<and> getitem x ''steamid'' = Some sid \<and>
        getitem x ''installed'' = Some inst \<and> truthy inst \<and>
        PStr (py_str sid) \<notin> set isa \<and> PStr (py_str sid) \<notin> set iwa \<and>
        (runner = PStr ''steam'' \<and> r_is_installed sr \<or>
         runner = PStr ''winesteam'' \<and> r_is_installed wr))"
proof -
  from sync_steam_game_log [OF assms] obtain runner sid inst where
    k: "getitem gi ''runner'' = Some runner" "getitem gi ''steamid'' = Some sid"
       "getitem gi ''installed'' = Some inst"
    and log: "log = (if \<not> truthy inst then
                 (if PStr (py_str sid) \<in> set isa then [Mark_as_installed (py_str sid) ''steam'' gi]
                  else if PStr (py_str sid) \<in> set iwa \<and> (\<exists>cp. getitem gi ''configpath'' = Some cp \<and> truthy cp)
                    then [Mark_as_installed (py_str sid) ''winesteam'' gi]
                  else [])
               else if PStr (py_str sid) \<notin> set isa \<and> PStr (py_str sid) \<notin> set iwa \<and>
                   (runner = PStr ''steam'' \<and> r_is_installed sr \<or>
                    runner = PStr ''winesteam'' \<and> r_is_installed wr)
                 then [Mark_as_uninstalled gi]
               else [])"
    by blast
  show ?thesis unfolding log by (auto simp: k)
qed

lemma sync_steam_game_install:
  assumes "sync_steam_game sr wr isa iwa gi sets st = Some (sets', st', log)"
  shows "Mark_as_installed s rn x \<in> set log \<longleftrightarrow>
     x = gi \<and>
     (\<exists>sid inst.
        getitem x ''steamid'' = Some sid \<and> s = py_str sid \<and>
        getitem x ''installed'' = Some inst \<and> \<not> truthy inst \<and>
        (PStr s \<in> set isa \<and> rn = ''steam'' \<or>
         PStr s \<notin> set isa \<and> PStr s \<in> set iwa \<and> rn = ''winesteam'' \<and>
         (\<exists>cp. getitem x ''configpath'' = Some cp \<and> truthy cp)))"
proof -
  from sync_steam_game_log [OF assms] obtain runner sid inst where
    k: "getitem gi ''runner'' = Some runner" "getitem gi ''steamid'' = Some sid"
       "getitem gi ''installed'' = Some inst"
    and log: "log = (if \<not> truthy inst then
                 (if PStr (py_str sid) \<in> set isa then [Mark_as_installed (py_str sid) ''steam'' gi]
                  else if PStr (py_str sid) \<in> set iwa \<and> (\<exists>cp. getitem gi ''configpath'' = Some cp \<and> truthy cp)
                    then [Mark_as_installed (py_str sid) ''winesteam'' gi]
                  else [])
               else if PStr (py_str sid) \<notin> set isa \<and> PStr (py_str sid) \<notin> set iwa \<and>
                   (runner = PStr ''steam'' \<and> r_is_installed sr \<or>
                    runner = PStr ''winesteam'' \<and> r_is_installed wr)
                 then [Mark_as_uninstalled gi]
               else [])"
    by blast
  show ?thesis unfolding log by (auto simp: k)
qed

lemma mark_as_installed_id:
  "mark_as_installed s rn gi st = Some (i, st') \<Longrightarrow> getitem gi ''id'' = Some (PInt i)"
  by (auto simp: mark_as_installed_def split: option.splits pyval.splits)

lemma mark_as_uninstalled_id:
  "mark_as_uninstalled gi st = Some (i, st') \<Longrightarrow> getitem gi ''id'' = Some (PInt i)"
  by (auto simp: mark_as_uninstalled_def split: option.splits pyval.splits)

lemma sync_steam_game_sets:
  assumes "sync_steam_game sr wr isa iwa gi (ins, unins) st = Some ((ins', unins'), st', log)"
  shows "ins' = ins \<union> {i. \<exists>s rn x. Mark_as_installed s rn x \<in> set log \<and> getitem x ''id'' = Some (PInt i)} \<and>
         unins' = unins \<union> {i. \<exists>x. Mark_as_uninstalled x \<in> set log \<and> getitem x ''id'' = Some (PInt i)}"
proof -
  from assms obtain runner sid inst where
    r: "getitem gi ''runner'' = Some runner" and s: "getitem gi ''steamid'' = Some sid"
    and i: "getitem gi ''installed'' = Some inst"
    unfolding sync_steam_game_def by (auto simp: Let_def split: bind_splits)
  show ?thesis
    using assms unfolding sync_steam_game_def
    by (auto simp add: r s i Let_def split: if_splits bind_splits prod.splits
        dest!: mark_as_installed_id mark_as_uninstalled_id)
qed

lemma in_log_Cons:
  assumes "A \<longleftrightarrow> x = gi \<and> C" and "B \<longleftrightarrow> x \<in> set rest \<and> C"
  shows "A \<or> B \<longleftrightarrow> x \<in> set (gi # rest) \<and> C"
  using assms by auto

lemma sync_steam_games_uninstall:
  assumes "sync_steam_games sr wr isa iwa lib sets st = Some (sets', st', log)"
  shows "Mark_as_uninstalled x \<in> set log \<longleftrightarrow>
     x \<in> set lib \<and>
     (\<exists>runner sid inst.
        getitem x ''runner'' = Some runner \<and> getitem x ''steamid'' = Some sid \<and>
        getitem x ''installed'' = Some inst \<and> truthy inst \<and>
        PStr (py_str sid) \<notin> set isa \<and> PStr (py_str sid) \<notin> set iwa \<and>
        (runner = PStr ''steam'' \<and> r_is_installed sr \<or>
         runner = PStr ''winesteam'' \<and> r_is_installed wr))"
  using assms
proof (induction lib arbitrary: sets st sets' st' log)
  case Nil
  then show ?case by simp
next
  case (Cons gi rest)
  from Cons.prems obtain sets1 st1 log1 log2 where
    b: "sync_steam_game sr wr isa iwa gi sets st = Some (sets1, st1, log1)"
    and l: "sync_steam_games sr wr isa iwa rest sets1 st1 = Some (sets', st', log2)"
    and log: "log = log1 @ log2"
    by (auto split: bind_splits)
  show ?case
    unfolding log set_append Un_iff
    by (rule in_log_Cons [OF sync_steam_game_uninstall [OF b] Cons.IH [OF l]])
qed

lemma sync_steam_games_install:
  assumes "sync_steam_games sr wr isa iwa lib sets st = Some (sets', st', log)"
  shows "Mark_as_installed s rn x \<in> set log \<longleftrightarrow>
     x \<in> set lib \<and>
     (\<exists>sid inst.
        getitem x ''steamid'' = Some sid \<and> s = py_str sid \<and>
        getitem x ''installed'' = Some inst \<and> \<not> truthy inst \<and>
        (PStr s \<in> set isa \<and> rn = ''steam'' \<or>
         PStr s \<notin> set isa \<and> PStr s \<in> set iwa \<and> rn = ''winesteam'' \<and>
         (\<exists>cp. getitem x ''configpath'' = Some cp \<and> truthy cp)))"
  using assms
proof (induction lib arbitrary: sets st sets' st' log)
  case Nil
  then show ?case by simp
next
  case (Cons gi rest)
  from Cons.prems obtain sets1 st1 log1 log2 where
    b: "sync_steam_game sr wr isa iwa gi sets st = Some (sets1, st1, log1)"
    and l: "sync_steam_games sr wr isa iwa rest sets1 st1 = Some (sets', st', log2)"
    and log: "log = log1 @ log2"
    by (auto split: bind_splits)
  show ?case
    unfolding log set_append Un_iff
    by (rule in_log_Cons [OF sync_steam_game_install [OF b] Cons.IH [OF l]])
qed

lemma sync_steam_games_sets:
  assumes "sync_steam_games sr wr isa iwa lib (ins, unins) st = Some ((ins', unins'), st', log)"
  shows "ins' = ins \<union> {i. \<exists>s rn x. Mark_as_installed s rn x \<in> set log \<and> getitem x ''id'' = Some (PInt i)} \<and>
         unins' = unins \<union> {i. \<exists>x. Mark_as_uninstalled x \<in> set log \<and> getitem x ''id'' = Some (PInt i)}"
  using assms
proof (induction lib arbitrary: ins unins st ins' unins' st' log)
  case Nil
  then show ?case by simp
next
  case (Cons gi rest)
  from Cons.prems obtain ins1 unins1 st1 log1 log2 where
    b: "sync_steam_game sr wr isa iwa gi (ins, unins) st = Some ((ins1, unins1), st1, log1)"
    and l: "sync_steam_games sr wr isa iwa rest (ins1, unins1) st1 = Some ((ins', unins'), st', log2)"
    and log: "log = log1 @ log2"
    by (auto split: bind_splits)
  show ?case
    unfolding log using sync_steam_game_sets [OF b] Cons.IH [OF l] by auto
qed

lemma string_of_nat_42: "string_of_nat 42 = ''42''"
  by code_simp

lemma string_of_nat_70: "string_of_nat 70 = ''70''"
  by code_simp

text \<open>
  Claim C5, as stated: no transition for an entry whose runner is neither Steam nor
  Wine Steam. The entry of a native Linux game that is not installed, and whose Steam id
  is installed in Steam, is marked as installed.
\<close>

theorem install_ignores_runner:
  "g_runner quake_linux = PStr ''linux'' \<and>
   sync_steam_local (get_games [quake_linux]) steam_host absent_runner [quake_linux] =
     Some (({2}, {}), [quake_linux\<lparr>g_installed := PInt 1, g_runner := PStr ''steam''\<rparr>],
           [Mark_as_installed ''42'' ''steam'' (row_dict quake_linux)])"
  by (simp add: sync_steam_local_def get_installed_steamapps_def steam_host_def
      absent_runner_def get_games_def sync_steam_game_def row_dict_def getitem_def
      quake_linux_def string_of_nat_42 Let_def mark_as_installed_def)

lemma sync_steam_local_games:
  assumes "sync_steam_local library steamrunner winesteamrunner st = Some r"
  shows "sync_steam_games steamrunner winesteamrunner
      (get_installed_steamapps steamrunner) (get_installed_steamapps winesteamrunner)
      library ({}, {}) st = Some r"
  using assms by (simp add: sync_steam_local_def Let_def)

text \<open>
  Claim C5, amended: an entry is marked as uninstalled only if its runner is Steam or
  Wine Steam. The install transition does not look at the runner: an entry of the
  library is marked as installed exactly when its installed flag is false and its Steam
  id is installed in Steam (then under the runner \<open>steam\<close>) or, failing that, in Wine
  Steam while the entry has a configuration path (then under the runner \<open>winesteam\<close>).
\<close>

theorem transitions_and_runner:
  assumes "sync_steam_local library steamrunner winesteamrunner st =
             Some ((installed, uninstalled), st', log)"
  shows "(Mark_as_uninstalled game_info \<in> set log \<longrightarrow>
            getitem game_info ''runner'' = Some (PStr ''steam'') \<or>
            getitem game_info ''runner'' = Some (PStr ''winesteam'')) \<and>
         (Mark_as_installed steamid runner_name game_info \<in> set log \<longleftrightarrow>
            game_info \<in> set library \<and>
            (\<exists>sid inst.
               getitem game_info ''steamid'' = Some sid \<and> steamid = py_str sid \<and>
               getitem game_info ''installed'' = Some inst \<and> \<not> truthy inst \<and>
               (PStr steamid \<in> set (get_installed_steamapps steamrunner) \<and>
                  runner_name = ''steam'' \<or>
                PStr steamid \<notin> set (get_installed_steamapps steamrunner) \<and>
                PStr steamid \<in> set (get_installed_steamapps winesteamrunner) \<and>
                  runner_name = ''winesteam'' \<and>
                (\<exists>cp. getitem game_info ''configpath'' = Some cp \<and> truthy cp))))"
proof (rule conjI)
  note games = sync_steam_local_games [OF assms]
  show "Mark_as_uninstalled game_info \<in> set log \<longrightarrow>
            getitem game_info ''runner'' = Some (PStr ''steam'') \<or>
            getitem game_info ''runner'' = Some (PStr ''winesteam'')"
  proof
    assume "Mark_as_uninstalled game_info \<in> set log"
    then obtain runner where "getitem game_info ''runner'' = Some runner"
        and "runner = PStr ''steam'' \<and> r_is_installed steamrunner \<or>
             runner = PStr ''winesteam'' \<and> r_is_installed winesteamrunner"
      unfolding sync_steam_games_uninstall [OF games] by blast
    then show "getitem game_info ''runner'' = Some (PStr ''steam'') \<or>
            getitem game_info ''runner'' = Some (PStr ''winesteam'')"
      by blast
  qed
  show "Mark_as_installed steamid runner_name game_info \<in> set log \<longleftrightarrow>
            game_info \<in> set library \<and>
            (\<exists>sid inst.
               getitem game_info ''steamid'' = Some sid \<and> steamid = py_str sid \<and>
               getitem game_info ''installed'' = Some inst \<and> \<not> truthy inst \<and>
               (PStr steamid \<in> set (get_installed_steamapps steamrunner) \<and>
                  runner_name = ''steam'' \<or>
                PStr steamid \<notin> set (get_installed_steamapps steamrunner) \<and>
                PStr steamid \<in> set (get_installed_steamapps winesteamrunner) \<and>
                  runner_name = ''winesteam'' \<and>
                (\<exists>cp. getitem game_info ''configpath'' = Some cp \<and> truthy cp)))"
    by (rule sync_steam_games_install [OF games])
qed


lemma steam_local_example:
  "sync_steam_local (get_games [quake_linux, hexen_winesteam]) steam_host winesteam_host
       [quake_linux, hexen_winesteam] =
     Some (({2}, {3}),
           [quake_linux\<lparr>g_installed := PInt 1, g_runner := PStr ''steam''\<rparr>,
            hexen_winesteam\<lparr>g_installed := PInt 0\<rparr>],
           [Mark_as_installed ''42'' ''steam'' (row_dict quake_linux),
            Mark_as_uninstalled (row_dict hexen_winesteam)])"
  by (simp add: sync_steam_local_def get_installed_steamapps_def steam_host_def
      winesteam_host_def get_games_def sync_steam_game_def row_dict_def getitem_def
      quake_linux_def hexen_winesteam_def string_of_nat_42 string_of_nat_70 Let_def
      mark_as_installed_def mark_as_uninstalled_def)

theorem transitions_and_runner_witness:
  "sync_steam_local (get_games [quake_linux, hexen_winesteam]) steam_host winesteam_host
       [quake_linux, hexen_winesteam] =
     Some (({2}, {3}),
           [quake_linux\<lparr>g_installed := PInt 1, g_runner := PStr ''steam''\<rparr>,
            hexen_winesteam\<lparr>g_installed := PInt 0\<rparr>],
           [Mark_as_installed ''42'' ''steam'' (row_dict quake_linux),
            Mark_as_uninstalled (row_dict hexen_winesteam)]) \<and>
   (getitem (row_dict hexen_winesteam) ''runner'' = Some (PStr ''steam'') \<or>
    getitem (row_dict hexen_winesteam) ''runner'' = Some (PStr ''winesteam'')) \<and>
   row_dict quake_linux \<in> set (get_games [quake_linux, hexen_winesteam]) \<and>
   (\<exists>sid inst.
       getitem (row_dict quake_linux) ''steamid'' = Some sid \<and> ''42'' = py_str sid \<and>
       getitem (row_dict quake_linux) ''installed'' = Some inst \<and> \<not> truthy inst \<and>
       (PStr ''42'' \<in> set (get_installed_steamapps steam_host) \<and> ''steam'' = ''steam'' \<or>
        PStr ''42'' \<notin> set (get_installed_steamapps steam_host) \<and>
        PStr ''42'' \<in> set (get_installed_steamapps winesteam_host) \<and>
          ''steam'' = ''winesteam'' \<and>
        (\<exists>cp. getitem (row_dict quake_linux) ''configpath'' = Some cp \<and> truthy cp)))"
proof -
  note run = steam_local_example
  have ev1: "Mark_as_uninstalled (row_dict hexen_winesteam) \<in>
      set [Mark_as_installed ''42'' ''steam'' (row_dict quake_linux),
           Mark_as_uninstalled (row_dict hexen_winesteam)]"
    by simp
  have ev2: "Mark_as_installed ''42'' ''steam'' (row_dict quake_linux) \<in>
      set [Mark_as_installed ''42'' ''steam'' (row_dict quake_linux),
           Mark_as_uninstalled (row_dict hexen_winesteam)]"
    by simp
  note c1 = transitions_and_runner [OF run, THEN conjunct1, THEN mp, OF ev1]
  note c2 = transitions_and_runner [OF run, THEN conjunct2, THEN iffD1, OF ev2]
  show ?thesis
    by (rule conjI [OF run conjI [OF c1 c2]])
qed


text \<open>
  Claim C6. An entry is marked as uninstalled exactly when its installed flag is true,
  its Steam id is in neither runner's list of installed apps, and its runner is Steam or
  Wine Steam with that runner present on the host. The configuration path plays no part:
  it is read on the install path through Wine Steam only. The set \<open>uninstalled\<close> holds
  the identifiers of the entries so marked.
\<close>

theorem uninstall_transition_iff:
  assumes "sync_steam_local library steamrunner winesteamrunner st =
             Some ((installed, uninstalled), st', log)"
  shows "(Mark_as_uninstalled game_info \<in> set log \<longleftrightarrow>
            game_info \<in> set library \<and>
            (\<exists>runner sid inst.
               getitem game_info ''runner'' = Some runner \<and>
               getitem game_info ''steamid'' = Some sid \<and>
               getitem game_info ''installed'' = Some inst \<and> truthy inst \<and>
               PStr (py_str sid) \<notin> set (get_installed_steamapps steamrunner) \<and>
               PStr (py_str sid) \<notin> set (get_installed_steamapps winesteamrunner) \<and>
               (runner = PStr ''steam'' \<and> r_is_installed steamrunner \<or>
                runner = PStr ''winesteam'' \<and> r_is_installed winesteamrunner))) \<and>
         uninstalled =
           {i. \<exists>x. Mark_as_uninstalled x \<in> set log \<and> getitem x ''id'' = Some (PInt i)}"
proof (rule conjI)
  note games = sync_steam_local_games [OF assms]
  show "Mark_as_uninstalled game_info \<in> set log \<longleftrightarrow>
            game_info \<in> set library \<and>
            (\<exists>runner sid inst.
               getitem game_info ''runner'' = Some runner \<and>
               getitem game_info ''steamid'' = Some sid \<and>
               getitem game_info ''installed'' = Some inst \<and> truthy inst \<and>
               PStr (py_str sid) \<notin> set (get_installed_steamapps steamrunner) \<and>
               PStr (py_str sid) \<notin> set (get_installed_steamapps winesteamrunner) \<and>
               (runner = PStr ''steam'' \<and> r_is_installed steamrunner \<or>
                runner = PStr ''winesteam'' \<and> r_is_installed winesteamrunner))"
    by (rule sync_steam_games_uninstall [OF games])
  have "uninstalled = {} \<union>
           {i. \<exists>x. Mark_as_uninstalled x \<in> set log \<and> getitem x ''id'' = Some (PInt i)}"
    by (rule conjunct2 [OF sync_steam_games_sets [OF games]])
  then show "uninstalled =
           {i. \<exists>x. Mark_as_uninstalled x \<in> set log \<and> getitem x ''id'' = Some (PInt i)}"
    by (simp only: Un_empty_left)
qed

theorem uninstall_transition_iff_witness:
  "sync_steam_local (get_games [hexen_winesteam]) absent_runner winesteam_host
       [hexen_winesteam] =
     Some (({}, {3}), [hexen_winesteam\<lparr>g_installed := PInt 0\<rparr>],
           [Mark_as_uninstalled (row_dict hexen_winesteam)]) \<and>
   getitem (row_dict hexen_winesteam) ''configpath'' = Some PNone \<and>
   row_dict hexen_winesteam \<in> set (get_games [hexen_winesteam]) \<and>
   (\<exists>runner sid inst.
       getitem (row_dict hexen_winesteam) ''runner'' = Some runner \<and>
       getitem (row_dict hexen_winesteam) ''steamid'' = Some sid \<and>
       getitem (row_dict hexen_winesteam) ''installed'' = Some inst \<and> truthy inst \<and>
       PStr (py_str sid) \<notin> set (get_installed_steamapps absent_runner) \<and>
       PStr (py_str sid) \<notin> set (get_installed_steamapps winesteam_host) \<and>
       (runner = PStr ''steam'' \<and> r_is_installed absent_runner \<or>
        runner = PStr ''winesteam'' \<and> r_is_installed winesteam_host))"
proof -
  have run: "sync_steam_local (get_games [hexen_winesteam]) absent_runner winesteam_host
       [hexen_winesteam] =
     Some (({}, {3}), [hexen_winesteam\<lparr>g_installed := PInt 0\<rparr>],
           [Mark_as_uninstalled (row_dict hexen_winesteam)])"
    by (simp add: sync_steam_local_def get_installed_steamapps_def winesteam_host_def
        absent_runner_def get_games_def sync_steam_game_def row_dict_def getitem_def
        hexen_winesteam_def string_of_nat_70 Let_def mark_as_uninstalled_def)
  have ev: "Mark_as_uninstalled (row_dict hexen_winesteam) \<in>
      set [Mark_as_uninstalled (row_dict hexen_winesteam)]"
    by simp
  have cp: "getitem (row_dict hexen_winesteam) ''configpath'' = Some PNone"
    by (simp add: row_dict_def getitem_def hexen_winesteam_def)
  note c = uninstall_transition_iff [OF run, THEN conjunct1, THEN iffD1, OF ev]
  show ?thesis
    by (rule conjI [OF run conjI [OF cp c]])
qed

section \<open>The loop of \<open>sync_game_details\<close>\<close>

lemma getitem_row_dict:
  "getitem (row_dict r) ''id'' = Some (PInt (g_id r))"
  "getitem (row_dict r) ''name'' = Some (g_name r)"
  "getitem (row_dict r) ''slug'' = Some (g_slug r)"
  "getitem (row_dict r) ''runner'' = Some (g_runner r)"
  "getitem (row_dict r) ''year'' = Some (g_year r)"
  "getitem (row_dict r) ''updated'' = Some (g_updated r)"
  "getitem (row_dict r) ''steamid'' = Some (g_steamid r)"
  "getitem (row_dict r) ''installed'' = Some (g_installed r)"
  "getitem (row_dict r) ''configpath'' = Some (g_configpath r)"
  by (simp_all add: row_dict_def getitem_def)

lemma row_dict_not_empty: "row_dict r \<noteq> []"
  by (simp add: row_dict_def)

lemma get_game_by_slug:
  "get_game_by_field st v ''slug'' =
     (case find (\<lambda>r. g_slug r = v) st of None \<Rightarrow> [] | Some r \<Rightarrow> row_dict r)"
  by (simp add: get_game_by_field_def getitem_row_dict)

lemma add_or_update_found:
  assumes "find (\<lambda>r. g_slug r = au_slug a) st = Some r"
  shows "add_or_update a st =
           (g_id r, update_first (\<lambda>r. g_slug r = au_slug a) (write_args a) st)"
  using assms by (simp add: add_or_update_def)

text \<open>The four ways through one iteration of the loop of \<open>sync_game_details\<close>.\<close>

lemma sync_game_cases:
  assumes "sync_game game st upd = Some (upd', st', log)"
  obtains
    (no_local) slug where "getitem game ''slug'' = Some slug"
      and "find (\<lambda>r. g_slug r = slug) st = None"
      and "upd' = upd" and "st' = st" and "log = []"
  | (no_sync) slug r ru where "getitem game ''slug'' = Some slug"
      and "find (\<lambda>r. g_slug r = slug) st = Some r"
      and "getitem game ''updated'' = Some ru" and "\<not> py_gt ru (g_updated r)"
      and "sync_new_fields (row_dict r) game (False, True) = (False, True)"
      and "upd' = upd" and "st' = st" and "log = []"
  | (stale) slug r ru year steamid where "getitem game ''slug'' = Some slug"
      and "find (\<lambda>r. g_slug r = slug) st = Some r"
      and "getitem game ''updated'' = Some ru" and "py_gt ru (g_updated r)"
      and "getitem game ''year'' = Some year" and "getitem game ''steamid'' = Some steamid"
      and "upd' = insert (g_id r) upd"
      and "st' = update_first (\<lambda>r. g_slug r = slug)
                   (write_args \<lparr>au_name = g_name r, au_runner = g_runner r, au_slug = slug,
                      au_year = year, au_updated = ru, au_steamid = steamid\<rparr>) st"
      and "log = [Add_or_update \<lparr>au_name = g_name r, au_runner = g_runner r, au_slug = slug,
                      au_year = year, au_updated = ru, au_steamid = steamid\<rparr>,
                  Download_icon slug ''banner'' True, Download_icon slug ''icon'' True]"
  | (backfill) slug r ru year steamid where "getitem game ''slug'' = Some slug"
      and "find (\<lambda>r. g_slug r = slug) st = Some r"
      and "getitem game ''updated'' = Some ru" and "\<not> py_gt ru (g_updated r)"
      and "sync_new_fields (row_dict r) game (False, True) = (True, False)"
      and "getitem game ''year'' = Some year" and "getitem game ''steamid'' = Some steamid"
      and "upd' = upd"
      and "st' = update_first (\<lambda>r. g_slug r = slug)
                   (write_args \<lparr>au_name = g_name r, au_runner = g_runner r, au_slug = slug,
                      au_year = year, au_updated = ru, au_steamid = steamid\<rparr>) st"
      and "log = [Add_or_update \<lparr>au_name = g_name r, au_runner = g_runner r, au_slug = slug,
                      au_year = year, au_updated = ru, au_steamid = steamid\<rparr>]"
proof -
  from assms obtain slug where slug: "getitem game ''slug'' = Some slug"
    by (auto simp: sync_game_def split: bind_splits)
  show thesis
  proof (cases "find (\<lambda>r. g_slug r = slug) st")
    case None
    then have "upd' = upd \<and> st' = st \<and> log = []"
      using assms slug by (auto simp: sync_game_def get_game_by_slug Let_def)
    then show thesis using no_local slug None by blast
  next
    case (Some r)
    have lg: "get_game_by_field st slug ''slug'' = row_dict r"
      using Some by (simp add: get_game_by_slug)
    from assms obtain sync sync_icons where fl: "sync_flags (row_dict r) game = Some (sync, sync_icons)"
      by (auto simp: sync_game_def slug lg row_dict_not_empty Let_def split: bind_splits)
    then obtain ru where ru: "getitem game ''updated'' = Some ru"
      by (auto simp: sync_flags_def split: bind_splits)
    have fl': "(sync, sync_icons) =
        (if py_gt ru (g_updated r) then (True, True)
         else sync_new_fields (row_dict r) game (False, True))"
      using fl ru by (auto simp add: sync_flags_def getitem_row_dict split: if_splits)
    have snf: "sync_new_fields (row_dict r) game (False, True) = (False, True) \<or>
               sync_new_fields (row_dict r) game (False, True) = (True, False)"
      by (simp add: sync_new_fields_eq)
    show thesis
    proof (cases sync)
      case False
      then have a: "\<not> py_gt ru (g_updated r)"
          and b: "sync_new_fields (row_dict r) game (False, True) = (False, True)"
        using fl' snf by (auto split: if_splits)
      have "upd' = upd \<and> st' = st \<and> log = []"
        using assms False
        by (simp add: sync_game_def slug lg row_dict_not_empty fl Let_def)
      then show thesis using no_sync slug Some ru a b by blast
    next
      case True
      from assms True obtain year steamid where
        y: "getitem game ''year'' = Some year" and s: "getitem game ''steamid'' = Some steamid"
        by (auto simp: sync_game_def slug lg row_dict_not_empty fl Let_def split: bind_splits)
      let ?args = "\<lparr>au_name = g_name r, au_runner = g_runner r, au_slug = slug,
                      au_year = year, au_updated = ru, au_steamid = steamid\<rparr>"
      have au: "add_or_update ?args st =
          (g_id r, update_first (\<lambda>r. g_slug r = slug) (write_args ?args) st)"
        using add_or_update_found [of ?args st r] Some by simp
      have res: "(if sync_icons then
                 Some (insert (g_id r) upd, update_first (\<lambda>r. g_slug r = slug) (write_args ?args) st,
                       [Add_or_update ?args, Download_icon slug ''banner'' True,
                        Download_icon slug ''icon'' True])
               else Some (upd, update_first (\<lambda>r. g_slug r = slug) (write_args ?args) st, [Add_or_update ?args]))
              = Some (upd', st', log)"
        using assms True
        by (simp add: sync_game_def slug lg row_dict_not_empty fl getitem_row_dict y ru s au Let_def)
      show thesis
      proof (cases "py_gt ru (g_updated r)")
        case pg: True
        then have "sync_icons" using fl' by simp
        then show thesis using res stale [OF slug Some ru pg y s] by simp
      next
        case pg: False
        then have b: "sync_new_fields (row_dict r) game (False, True) = (True, False)"
          and "\<not> sync_icons"
          using fl' True snf by auto
        then show thesis using res backfill [OF slug Some ru pg b y s] by simp
      qed
    qed
  qed
qed

lemma sync_games_append:
  "sync_games (xs @ ys) st upd =
     do {
       (u1, s1, l1) \<leftarrow> sync_games xs st upd;
       (u2, s2, l2) \<leftarrow> sync_games ys s1 u1;
       Some (u2, s2, l1 @ l2)
     }"
proof (induction xs arbitrary: st upd)
  case Nil
  then show ?case by (cases "sync_games ys st upd") auto
next
  case (Cons x xs)
  show ?case
  proof (cases "sync_game x st upd")
    case None
    then show ?thesis by simp
  next
    case (Some a)
    obtain u1 s1 l1 where a: "a = (u1, s1, l1)" by (cases a)
    show ?thesis
    proof (cases "sync_games xs s1 u1")
      case None
      then show ?thesis using Some a Cons [of s1 u1] by simp
    next
      case b: (Some b)
      obtain u2 s2 l2 where b2: "b = (u2, s2, l2)" by (cases b)
      show ?thesis
        using Some a b b2 Cons [of s1 u1]
        by (cases "sync_games ys s2 u2") auto
    qed
  qed
qed

lemma sync_games_in_log_ex:
  assumes "sync_games games st upd = Some (upd', st', log)" and "e \<in> set log"
  shows "\<exists>before game after u1 st1 log1 u2 st2 log2.
    games = before @ game # after \<and>
    sync_games before st upd = Some (u1, st1, log1) \<and>
    sync_game game st1 u1 = Some (u2, st2, log2) \<and>
    e \<in> set log2"
  using assms
proof (induction games arbitrary: st upd upd' st' log)
  case Nil
  then show ?case by simp
next
  case (Cons g rest)
  from Cons.prems(1) obtain ua sa la ub sb lb where
    b: "sync_game g st upd = Some (ua, sa, la)"
    and l: "sync_games rest sa ua = Some (ub, sb, lb)"
    and log: "log = la @ lb"
    by (auto split: bind_splits)
  show ?case
  proof (cases "e \<in> set la")
    case True
    have "g # rest = [] @ g # rest" and "sync_games [] st upd = Some (upd, st, [])"
      by simp_all
    then show ?thesis using b True by blast
  next
    case False
    then have eb: "e \<in> set lb" using Cons.prems(2) log by simp
    from Cons.IH [OF l eb] obtain before game after u1 st1 log1 u2 st2 log2 where
      r: "rest = before @ game # after"
      and p: "sync_games before sa ua = Some (u1, st1, log1)"
      and q: "sync_game game st1 u1 = Some (u2, st2, log2)"
      and e: "e \<in> set log2"
      by blast
    have "g # rest = (g # before) @ game # after"
      and "sync_games (g # before) st upd = Some (u1, st1, la @ log1)"
      using r b p by simp_all
    then show ?thesis using q e by blast
  qed
qed

lemma sync_games_in_log:
  assumes "sync_games games st upd = Some (upd', st', log)" and "e \<in> set log"
  obtains before game after u1 st1 log1 u2 st2 log2 where
    "games = before @ game # after"
    "sync_games before st upd = Some (u1, st1, log1)"
    "sync_game game st1 u1 = Some (u2, st2, log2)"
    "e \<in> set log2"
  using sync_games_in_log_ex [OF assms] by blast

lemma sync_games_log_of_split:
  assumes "sync_games (before @ game # after) st upd = Some (upd', st', log)"
    and "sync_games before st upd = Some (u1, st1, log1)"
    and "sync_game game st1 u1 = Some (u2, st2, log2)"
  shows "set log2 \<subseteq> set log"
  using assms by (auto simp: sync_games_append split: bind_splits)

lemma sync_game_icon_iff:
  assumes "sync_game game st upd = Some (upd', st', log)"
  shows "Download_icon slug kind ow \<in> set log \<longleftrightarrow>
     (kind = ''banner'' \<or> kind = ''icon'') \<and> ow \<and>
     getitem game ''slug'' = Some slug \<and>
     get_game_by_field st slug ''slug'' \<noteq> [] \<and>
     (\<exists>ru lu. getitem game ''updated'' = Some ru \<and>
        getitem (get_game_by_field st slug ''slug'') ''updated'' = Some lu \<and> py_gt ru lu)"
  using assms
proof (cases rule: sync_game_cases)
  case (no_local slug)
  then show ?thesis by (auto simp: get_game_by_slug)
next
  case (no_sync slug r ru)
  then show ?thesis by (auto simp: get_game_by_slug getitem_row_dict)
next
  case (stale slug r ru year steamid)
  then show ?thesis by (auto simp: get_game_by_slug getitem_row_dict row_dict_not_empty)
next
  case (backfill slug r ru year steamid)
  then show ?thesis by (auto simp: get_game_by_slug getitem_row_dict)
qed

lemma sync_game_upsert_args:
  assumes "sync_game game st upd = Some (upd', st', log)" and "Add_or_update args \<in> set log"
  shows "getitem game ''slug'' = Some (au_slug args) \<and>
     getitem (get_game_by_field st (au_slug args) ''slug'') ''name'' = Some (au_name args) \<and>
     getitem (get_game_by_field st (au_slug args) ''slug'') ''runner'' = Some (au_runner args) \<and>
     getitem game ''year'' = Some (au_year args) \<and>
     getitem game ''updated'' = Some (au_updated args) \<and>
     getitem game ''steamid'' = Some (au_steamid args)"
  using assms
proof (cases rule: sync_game_cases)
  case (no_local slug)
  then show ?thesis using assms(2) by simp
next
  case (no_sync slug r ru)
  then show ?thesis using assms(2) by simp
next
  case (stale slug r ru year steamid)
  then show ?thesis using assms(2) by (auto simp: get_game_by_slug getitem_row_dict)
next
  case (backfill slug r ru year steamid)
  then show ?thesis using assms(2) by (auto simp: get_game_by_slug getitem_row_dict)
qed

lemma sync_game_details_games:
  assumes "sync_game_details remote_library st = Some (updated, st', log)"
  shows "sync_games remote_library st {} = Some (updated, st', log)"
  using assms by (cases remote_library) (auto simp: sync_game_details_def)

text \<open>
  Claim C3. The icons of a slug (banner and icon, overwriting) are fetched exactly when
  the loop of \<open>sync_game_details\<close> reaches a remote game with that slug that has a
  local game and is newer than it at that moment: every update on the staleness path
  fetches them, and no update on the backfill path and no entry left alone does.
\<close>

theorem media_refresh_iff_staleness:
  assumes "sync_game_details remote_library st = Some (updated, st', log)"
  shows "Download_icon slug kind overwrite \<in> set log \<longleftrightarrow>
     (kind = ''banner'' \<or> kind = ''icon'') \<and> overwrite \<and>
     (\<exists>before game after updated1 st1 log1 remote_updated local_updated.
        remote_library = before @ game # after \<and>
        sync_games before st {} = Some (updated1, st1, log1) \<and>
        getitem game ''slug'' = Some slug \<and>
        get_game_by_field st1 slug ''slug'' \<noteq> [] \<and>
        getitem game ''updated'' = Some remote_updated \<and>
        getitem (get_game_by_field st1 slug ''slug'') ''updated'' = Some local_updated \<and>
        py_gt remote_updated local_updated)"
    (is "?L \<longleftrightarrow> ?K \<and> ?R")
proof
  note games = sync_game_details_games [OF assms]
  assume ?L
  with games obtain before game after u1 st1 log1 u2 st2 log2 where
    s: "remote_library = before @ game # after"
    and p: "sync_games before st {} = Some (u1, st1, log1)"
    and q: "sync_game game st1 u1 = Some (u2, st2, log2)"
    and e: "Download_icon slug kind overwrite \<in> set log2"
    by (rule sync_games_in_log)
  from e have i: "(kind = ''banner'' \<or> kind = ''icon'') \<and> overwrite \<and>
     getitem game ''slug'' = Some slug \<and>
     get_game_by_field st1 slug ''slug'' \<noteq> [] \<and>
     (\<exists>ru lu. getitem game ''updated'' = Some ru \<and>
        getitem (get_game_by_field st1 slug ''slug'') ''updated'' = Some lu \<and> py_gt ru lu)"
    unfolding sync_game_icon_iff [OF q] .
  then have ?K by blast
  moreover have ?R using i s p by blast
  ultimately show "?K \<and> ?R" ..
next
  note games = sync_game_details_games [OF assms]
  assume r: "?K \<and> ?R"
  then obtain before game after u1 st1 log1 ru lu where
    s: "remote_library = before @ game # after"
    and p: "sync_games before st {} = Some (u1, st1, log1)"
    and c: "getitem game ''slug'' = Some slug" "get_game_by_field st1 slug ''slug'' \<noteq> []"
       "getitem game ''updated'' = Some ru"
       "getitem (get_game_by_field st1 slug ''slug'') ''updated'' = Some lu" "py_gt ru lu"
    by blast
  from games s p obtain u2 st2 log2 where q: "sync_game game st1 u1 = Some (u2, st2, log2)"
    by (auto simp: sync_games_append split: bind_splits)
  have "Download_icon slug kind overwrite \<in> set log2"
    unfolding sync_game_icon_iff [OF q] using r c by blast
  moreover have "set log2 \<subseteq> set log"
    using sync_games_log_of_split [OF games [unfolded s] p q] .
  ultimately show ?L by blast
qed

lemma find_Some_props: "find P xs = Some x \<Longrightarrow> P x \<and> x \<in> set xs"
  by (induction xs) (auto split: if_splits)

lemma map_update_first:
  assumes "\<And>x. P x \<Longrightarrow> h (f x) = h x"
  shows "map h (update_first P f xs) = map h xs"
  using assms by (induction xs) auto

lemma map_update_first_found:
  assumes "find P xs = Some x" and "h (f x) = h x"
  shows "map h (update_first P f xs) = map h xs"
  using assms by (induction xs) (auto split: if_splits)

lemma sync_game_keeps:
  assumes "sync_game game st upd = Some (upd', st', log)"
  shows "map g_id st' = map g_id st" and "map g_slug st' = map g_slug st"
    and "map g_installed st' = map g_installed st"
    and "map g_configpath st' = map g_configpath st"
    and "map g_name st' = map g_name st" and "map g_runner st' = map g_runner st"
  using assms
  by (cases rule: sync_game_cases;
      simp add: map_update_first write_args_def map_update_first_found)+

lemma sync_games_keeps:
  assumes "sync_games games st upd = Some (upd', st', log)"
  shows "map g_id st' = map g_id st \<and> map g_slug st' = map g_slug st \<and>
    map g_installed st' = map g_installed st \<and>
    map g_configpath st' = map g_configpath st \<and>
    map g_name st' = map g_name st \<and> map g_runner st' = map g_runner st"
  using assms
proof (induction games arbitrary: st upd upd' st' log)
  case Nil
  then show ?case by simp
next
  case (Cons g rest)
  from Cons.prems obtain ua sa la ub sb lb where
    b: "sync_game g st upd = Some (ua, sa, la)"
    and l: "sync_games rest sa ua = Some (upd', st', lb)"
    by (auto split: bind_splits)
  show ?case using sync_game_keeps [OF b] Cons.IH [OF l] by simp
qed

text \<open>
  Claim C10. Every upsert issued by \<open>sync_game_details\<close>, on either path, sends the
  name and the runner of the local game as they are, and the year, the update time and
  the Steam id of the remote game. With the store's upsert the names and runners of all
  rows are the same after the pass: a remote name never replaces a local one.
\<close>

theorem upsert_sends_local_name_and_runner:
  assumes "sync_game_details remote_library st = Some (updated, st', log)"
  shows "(Add_or_update args \<in> set log \<longrightarrow>
     (\<exists>before game after updated1 st1 log1.
        remote_library = before @ game # after \<and>
        sync_games before st {} = Some (updated1, st1, log1) \<and>
        getitem game ''slug'' = Some (au_slug args) \<and>
        getitem (get_game_by_field st1 (au_slug args) ''slug'') ''name'' = Some (au_name args) \<and>
        getitem (get_game_by_field st1 (au_slug args) ''slug'') ''runner'' =
          Some (au_runner args) \<and>
        getitem game ''year'' = Some (au_year args) \<and>
        getitem game ''updated'' = Some (au_updated args) \<and>
        getitem game ''steamid'' = Some (au_steamid args))) \<and>
     map g_name st' = map g_name st \<and> map g_runner st' = map g_runner st"
proof (intro conjI impI)
  note games = sync_game_details_games [OF assms]
  show "map g_name st' = map g_name st" and "map g_runner st' = map g_runner st"
    using sync_games_keeps [OF games] by simp_all
  assume "Add_or_update args \<in> set log"
  with games obtain before game after u1 st1 log1 u2 st2 log2 where
    s: "remote_library = before @ game # after"
    and p: "sync_games before st {} = Some (u1, st1, log1)"
    and q: "sync_game game st1 u1 = Some (u2, st2, log2)"
    and e: "Add_or_update args \<in> set log2"
    by (rule sync_games_in_log)
  show "\<exists>before game after updated1 st1 log1.
        remote_library = before @ game # after \<and>
        sync_games before st {} = Some (updated1, st1, log1) \<and>
        getitem game ''slug'' = Some (au_slug args) \<and>
        getitem (get_game_by_field st1 (au_slug args) ''slug'') ''name'' = Some (au_name args) \<and>
        getitem (get_game_by_field st1 (au_slug args) ''slug'') ''runner'' =
          Some (au_runner args) \<and>
        getitem game ''year'' = Some (au_year args) \<and>
        getitem game ''updated'' = Some (au_updated args) \<and>
        getitem game ''steamid'' = Some (au_steamid args)"
    using s p sync_game_upsert_args [OF q e] by blast
qed

lemma details_example:
  "sync_game_details [doom_remaster, doom_backfill, doom_new] [doom_local] =
     Some ({1}, [doom_local\<lparr>g_updated := PInt 200\<rparr>],
           [Add_or_update \<lparr>au_name = PStr ''Doom'', au_runner = PNone, au_slug = PStr ''doom'',
                           au_year = PInt 1993, au_updated = PInt 50, au_steamid = PNone\<rparr>,
            Add_or_update \<lparr>au_name = PStr ''Doom'', au_runner = PNone, au_slug = PStr ''doom'',
                           au_year = PNone, au_updated = PInt 200, au_steamid = PNone\<rparr>,
            Download_icon (PStr ''doom'') ''banner'' True,
            Download_icon (PStr ''doom'') ''icon'' True])"
  by (simp add: sync_game_details_def sync_game_def doom_backfill_def doom_new_def doom_local_def
      doom_remaster_def getitem_def get_game_by_field_def row_dict_def sync_flags_def key_in_def
      add_or_update_def write_args_def)

theorem media_refresh_iff_staleness_witness:
  "sync_game_details [doom_remaster, doom_backfill, doom_new] [doom_local] =
     Some ({1}, [doom_local\<lparr>g_updated := PInt 200\<rparr>],
           [Add_or_update \<lparr>au_name = PStr ''Doom'', au_runner = PNone, au_slug = PStr ''doom'',
                           au_year = PInt 1993, au_updated = PInt 50, au_steamid = PNone\<rparr>,
            Add_or_update \<lparr>au_name = PStr ''Doom'', au_runner = PNone, au_slug = PStr ''doom'',
                           au_year = PNone, au_updated = PInt 200, au_steamid = PNone\<rparr>,
            Download_icon (PStr ''doom'') ''banner'' True,
            Download_icon (PStr ''doom'') ''icon'' True]) \<and>
   ((''icon'' = ''banner'' \<or> ''icon'' = ''icon'') \<and> True \<and>
     (\<exists>before game after updated1 st1 log1 remote_updated local_updated.
        [doom_remaster, doom_backfill, doom_new] = before @ game # after \<and>
        sync_games before [doom_local] {} = Some (updated1, st1, log1) \<and>
        getitem game ''slug'' = Some (PStr ''doom'') \<and>
        get_game_by_field st1 (PStr ''doom'') ''slug'' \<noteq> [] \<and>
        getitem game ''updated'' = Some remote_updated \<and>
        getitem (get_game_by_field st1 (PStr ''doom'') ''slug'') ''updated'' = Some local_updated \<and>
        py_gt remote_updated local_updated))"
proof -
  note run = details_example
  have ev: "Download_icon (PStr ''doom'') ''icon'' True \<in> set
           [Add_or_update \<lparr>au_name = PStr ''Doom'', au_runner = PNone, au_slug = PStr ''doom'',
                           au_year = PInt 1993, au_updated = PInt 50, au_steamid = PNone\<rparr>,
            Add_or_update \<lparr>au_name = PStr ''Doom'', au_runner = PNone, au_slug = PStr ''doom'',
                           au_year = PNone, au_updated = PInt 200, au_steamid = PNone\<rparr>,
            Download_icon (PStr ''doom'') ''banner'' True,
            Download_icon (PStr ''doom'') ''icon'' True]"
    by simp
  note c = media_refresh_iff_staleness [OF run, THEN iffD1, OF ev]
  show ?thesis by (rule conjI [OF run c])
qed

theorem upsert_sends_local_name_and_runner_witness:
  "sync_game_details [doom_remaster, doom_backfill, doom_new] [doom_local] =
     Some ({1}, [doom_local\<lparr>g_updated := PInt 200\<rparr>],
           [Add_or_update \<lparr>au_name = PStr ''Doom'', au_runner = PNone, au_slug = PStr ''doom'',
                           au_year = PInt 1993, au_updated = PInt 50, au_steamid = PNone\<rparr>,
            Add_or_update \<lparr>au_name = PStr ''Doom'', au_runner = PNone, au_slug = PStr ''doom'',
                           au_year = PNone, au_updated = PInt 200, au_steamid = PNone\<rparr>,
            Download_icon (PStr ''doom'') ''banner'' True,
            Download_icon (PStr ''doom'') ''icon'' True]) \<and>
   (\<exists>before game after updated1 st1 log1.
        [doom_remaster, doom_backfill, doom_new] = before @ game # after \<and>
        sync_games before [doom_local] {} = Some (updated1, st1, log1) \<and>
        getitem game ''slug'' = Some (PStr ''doom'') \<and>
        getitem (get_game_by_field st1 (PStr ''doom'') ''slug'') ''name'' = Some (PStr ''Doom'') \<and>
        getitem (get_game_by_field st1 (PStr ''doom'') ''slug'') ''runner'' = Some PNone \<and>
        getitem game ''year'' = Some (PInt 1993) \<and>
        getitem game ''updated'' = Some (PInt 50) \<and>
        getitem game ''steamid'' = Some PNone) \<and>
   map g_name [doom_local\<lparr>g_updated := PInt 200\<rparr>] = map g_name [doom_local]"
proof -
  note run = details_example
  have ev: "Add_or_update \<lparr>au_name = PStr ''Doom'', au_runner = PNone, au_slug = PStr ''doom'',
                           au_year = PInt 1993, au_updated = PInt 50, au_steamid = PNone\<rparr> \<in> set
           [Add_or_update \<lparr>au_name = PStr ''Doom'', au_runner = PNone, au_slug = PStr ''doom'',
                           au_year = PInt 1993, au_updated = PInt 50, au_steamid = PNone\<rparr>,
            Add_or_update \<lparr>au_name = PStr ''Doom'', au_runner = PNone, au_slug = PStr ''doom'',
                           au_year = PNone, au_updated = PInt 200, au_steamid = PNone\<rparr>,
            Download_icon (PStr ''doom'') ''banner'' True,
            Download_icon (PStr ''doom'') ''icon'' True]"
    by simp
  note c = upsert_sends_local_name_and_runner [OF run, THEN conjunct1, THEN mp, OF ev]
  note d = upsert_sends_local_name_and_runner [OF run, THEN conjunct2, THEN conjunct1]
  from c have c': "\<exists>before game after updated1 st1 log1.
        [doom_remaster, doom_backfill, doom_new] = before @ game # after \<and>
        sync_games before [doom_local] {} = Some (updated1, st1, log1) \<and>
        getitem game ''slug'' = Some (PStr ''doom'') \<and>
        getitem (get_game_by_field st1 (PStr ''doom'') ''slug'') ''name'' = Some (PStr ''Doom'') \<and>
        getitem (get_game_by_field st1 (PStr ''doom'') ''slug'') ''runner'' = Some PNone \<and>
        getitem game ''year'' = Some (PInt 1993) \<and>
        getitem game ''updated'' = Some (PInt 50) \<and>
        getitem game ''steamid'' = Some PNone"
    by simp
  show ?thesis by (rule conjI [OF run conjI [OF c' d]])
qed

section \<open>Inserted and updated entries\<close>

lemma foldr_max_ge: "r \<in> set st \<Longrightarrow> g_id r \<le> foldr max (map g_id st) 0"
  by (induction st) auto

lemma next_id_greater: "r \<in> set st \<Longrightarrow> g_id r < next_id st"
  using foldr_max_ge [of r st] by (simp add: next_id_def)

lemma add_games_bulk_rows:
  assumes "add_games_bulk ds st = (ids, st')"
  shows "\<exists>rows. st' = st @ rows \<and> map g_id rows = ids \<and>
           (\<forall>r \<in> set rows. \<exists>d \<in> set ds. \<exists>i. r = new_row i d) \<and>
           (\<forall>d \<in> set ds. \<exists>r \<in> set rows. \<exists>i. r = new_row i d) \<and>
           (\<forall>i \<in> set ids. \<forall>r \<in> set st. g_id r < i)"
  using assms
proof (induction ds arbitrary: st ids st')
  case Nil
  then show ?case by simp
next
  case (Cons d ds)
  obtain ids0 where a: "add_games_bulk ds (st @ [new_row (next_id st) d]) = (ids0, st')"
    and ids: "ids = next_id st # ids0"
    using Cons.prems by (auto simp: Let_def split: prod.splits)
  from Cons.IH [OF a] obtain rows where
    r1: "st' = (st @ [new_row (next_id st) d]) @ rows" and r2: "map g_id rows = ids0"
    and r3: "\<forall>r \<in> set rows. \<exists>d \<in> set ds. \<exists>i. r = new_row i d"
    and r3': "\<forall>d \<in> set ds. \<exists>r \<in> set rows. \<exists>i. r = new_row i d"
    and r4: "\<forall>i \<in> set ids0. \<forall>r \<in> set (st @ [new_row (next_id st) d]). g_id r < i"
    by blast
  let ?rows = "new_row (next_id st) d # rows"
  have "st' = st @ ?rows" using r1 by simp
  moreover have "map g_id ?rows = ids" using r2 ids by (simp add: new_row_def)
  moreover have "\<forall>r \<in> set ?rows. \<exists>d' \<in> set (d # ds). \<exists>i. r = new_row i d'"
    using r3 by auto
  moreover have "\<forall>d' \<in> set (d # ds). \<exists>r \<in> set ?rows. \<exists>i. r = new_row i d'"
    using r3' by auto
  moreover have "\<forall>i \<in> set ids. \<forall>r \<in> set st. g_id r < i"
    using r4 ids next_id_greater by auto
  ultimately show ?case by blast
qed

lemma missing_records_origin:
  assumes "missing_records not_in_local games = Some missing" and "d \<in> set missing"
  shows "\<exists>g \<in> set games. \<exists>s u. getitem g ''slug'' = Some s \<and> s \<in> not_in_local \<and>
           getitem g ''updated'' = Some u \<and>
           field_or_none d ''slug'' = s \<and> field_or_none d ''updated'' = u"
  using assms
proof (induction games arbitrary: missing)
  case Nil
  then show ?case by simp
next
  case (Cons g rest)
  from Cons.prems(1) obtain s where s: "getitem g ''slug'' = Some s"
    by (auto split: bind_splits)
  show ?case
  proof (cases "s \<in> not_in_local")
    case False
    then have "missing_records not_in_local rest = Some missing"
      using Cons.prems(1) s by simp
    from Cons.IH [OF this Cons.prems(2)] show ?thesis by auto
  next
    case True
    from Cons.prems(1) s True obtain n y u sid ms where
      k: "getitem g ''name'' = Some n" "getitem g ''year'' = Some y"
         "getitem g ''updated'' = Some u" "getitem g ''steamid'' = Some sid"
      and ms: "missing_records not_in_local rest = Some ms"
      and m: "missing = [(''name'', n), (''slug'', s), (''year'', y),
                  (''updated'', u), (''steamid'', sid)] # ms"
      by (auto split: bind_splits)
    show ?thesis
    proof (cases "d \<in> set ms")
      case True
      from Cons.IH [OF ms True] show ?thesis by auto
    next
      case False
      then have "d = [(''name'', n), (''slug'', s), (''year'', y),
                  (''updated'', u), (''steamid'', sid)]"
        using Cons.prems(2) m by simp
      then have "field_or_none d ''slug'' = s \<and> field_or_none d ''updated'' = u"
        by (simp add: field_or_none_def)
      then show ?thesis using s k True by auto
    qed
  qed
qed

lemma slugs_of_member:
  assumes "slugs_of games = Some ss" and "g \<in> set games" and "getitem g ''slug'' = Some s"
  shows "s \<in> set ss"
  using assms by (induction games arbitrary: ss) (auto split: bind_splits)


lemma same_missing_slug_same_game:
  assumes "slugs_of games = Some ss" and "distinct (filter (\<lambda>s. s \<in> nil) ss)"
    and "g \<in> set games" and "g' \<in> set games"
    and "getitem g ''slug'' = Some s" and "getitem g' ''slug'' = Some s" and "s \<in> nil"
  shows "g = g'"
  using assms
proof (induction games arbitrary: ss)
  case Nil
  then show ?case by simp
next
  case (Cons x xs)
  from Cons.prems(1) obtain sx ss' where sx: "getitem x ''slug'' = Some sx"
    and ss': "slugs_of xs = Some ss'" and ss: "ss = sx # ss'"
    by (auto split: bind_splits)
  have d': "distinct (filter (\<lambda>s. s \<in> nil) ss')"
    using Cons.prems(2) ss by (auto split: if_splits)
  have notin: "s \<notin> set ss'" if "sx = s"
    using Cons.prems(2) ss that Cons.prems(7) by auto
  show ?case
  proof (cases "g = x")
    case gx: True
    show ?thesis
    proof (cases "g' = x")
      case True
      then show ?thesis using gx by simp
    next
      case False
      then have "g' \<in> set xs" using Cons.prems(4) by simp
      then have "s \<in> set ss'" using slugs_of_member [OF ss' _ Cons.prems(6)] by simp
      moreover have "sx = s" using gx sx Cons.prems(5) by simp
      ultimately show ?thesis using notin by simp
    qed
  next
    case gx: False
    then have gin: "g \<in> set xs" using Cons.prems(3) by simp
    show ?thesis
    proof (cases "g' = x")
      case True
      have "s \<in> set ss'" using slugs_of_member [OF ss' gin Cons.prems(5)] .
      moreover have "sx = s" using True sx Cons.prems(6) by simp
      ultimately show ?thesis using notin by simp
    next
      case False
      then have "g' \<in> set xs" using Cons.prems(4) by simp
      then show ?thesis
        using Cons.IH [OF ss' d' gin _ Cons.prems(5) Cons.prems(6) Cons.prems(7)] by simp
    qed
  qed
qed

lemma find_update_first_other:
  assumes "\<And>x. P x \<Longrightarrow> \<not> Q x \<and> \<not> Q (f x)"
  shows "find Q (update_first P f xs) = find Q xs"
  using assms by (induction xs) auto

lemma find_update_first_same:
  assumes "\<And>x. P x \<Longrightarrow> P (f x)"
  shows "find P (update_first P f xs) = map_option f (find P xs)"
  using assms by (induction xs) auto

lemma set_update_first:
  "r \<in> set (update_first P f xs) \<Longrightarrow> r \<in> set xs \<or> (\<exists>x \<in> set xs. P x \<and> r = f x)"
  by (induction xs) (auto split: if_splits)

lemma write_args_keeps [simp]:
  "g_slug (write_args a r) = g_slug r" "g_id (write_args a r) = g_id r"
  "g_updated (write_args a r) = au_updated a"
  by (simp_all add: write_args_def)

text \<open>
  While the loop of \<open>sync_game_details\<close> runs after the insertion of the missing games,
  a freshly inserted row carries the update time of the only remote game of its slug
  until that game is reached, so its identifier never enters \<open>updated\<close>.
\<close>

lemma sync_games_fresh_not_updated:
  assumes "sync_games games cur upd = Some (upd', cur', log)"
    and "slugs_of games = Some ss" and "distinct (filter (\<lambda>s. s \<in> nil) ss)"
    and "\<forall>r \<in> set cur. g_id r \<in> added \<longrightarrow> g_slug r \<in> nil"
    and "\<forall>g \<in> set games. \<forall>s r. getitem g ''slug'' = Some s \<longrightarrow>
           find (\<lambda>r. g_slug r = s) cur = Some r \<longrightarrow> g_id r \<in> added \<longrightarrow>
           getitem g ''updated'' = Some (g_updated r)"
  shows "upd' \<inter> added = upd \<inter> added"
  using assms
proof (induction games arbitrary: cur upd ss log)
  case Nil
  then show ?case by simp
next
  case (Cons g rest)
  from Cons.prems(1) obtain u1 c1 l1 l2 where
    b: "sync_game g cur upd = Some (u1, c1, l1)"
    and l: "sync_games rest c1 u1 = Some (upd', cur', l2)"
    by (auto split: bind_splits)
  from Cons.prems(2) obtain sg ss' where sg: "getitem g ''slug'' = Some sg"
    and ss': "slugs_of rest = Some ss'" and ss: "ss = sg # ss'"
    by (auto split: bind_splits)
  have d': "distinct (filter (\<lambda>s. s \<in> nil) ss')"
    using Cons.prems(3) ss by (auto split: if_splits)
  have later: "sg \<notin> nil" if "g' \<in> set rest" and "getitem g' ''slug'' = Some sg" for g'
  proof
    assume "sg \<in> nil"
    moreover have "sg \<in> set ss'" using slugs_of_member [OF ss' that] .
    ultimately show False using Cons.prems(3) ss by simp
  qed
  note A = Cons.prems(4)
  note I = Cons.prems(5)
  have I_rest: "\<forall>g \<in> set rest. \<forall>s r. getitem g ''slug'' = Some s \<longrightarrow>
           find (\<lambda>r. g_slug r = s) cur = Some r \<longrightarrow> g_id r \<in> added \<longrightarrow>
           getitem g ''updated'' = Some (g_updated r)"
    using I by simp
  have written: "(\<forall>r \<in> set c1. g_id r \<in> added \<longrightarrow> g_slug r \<in> nil) \<and>
      (\<forall>g \<in> set rest. \<forall>s r. getitem g ''slug'' = Some s \<longrightarrow>
           find (\<lambda>r. g_slug r = s) c1 = Some r \<longrightarrow> g_id r \<in> added \<longrightarrow>
           getitem g ''updated'' = Some (g_updated r))"
    if f: "find (\<lambda>r. g_slug r = sg) cur = Some r0"
      and c1: "c1 = update_first (\<lambda>r. g_slug r = sg) (write_args a) cur" for r0 a
  proof (intro conjI ballI allI impI)
    fix r assume r: "r \<in> set c1" and ra: "g_id r \<in> added"
    from set_update_first [OF r [unfolded c1]]
    show "g_slug r \<in> nil" using A ra by auto
  next
    fix g' s r
    assume g': "g' \<in> set rest" and s: "getitem g' ''slug'' = Some s"
      and fr: "find (\<lambda>r. g_slug r = s) c1 = Some r" and ra: "g_id r \<in> added"
    show "getitem g' ''updated'' = Some (g_updated r)"
    proof (cases "s = sg")
      case True
      have "find (\<lambda>r. g_slug r = sg) c1 = Some (write_args a r0)"
        unfolding c1 by (simp add: find_update_first_same f)
      then have "r = write_args a r0" using fr True by simp
      then have "g_id r0 \<in> added" using ra by simp
      moreover have "r0 \<in> set cur" and "g_slug r0 = sg"
        using find_Some_props [OF f] by simp_all
      ultimately have "sg \<in> nil" using A by auto
      then show ?thesis using later [OF g'] s True by simp
    next
      case False
      have "find (\<lambda>r. g_slug r = s) c1 = find (\<lambda>r. g_slug r = s) cur"
        unfolding c1 using False by (intro find_update_first_other) auto
      then show ?thesis using I_rest g' s fr ra by auto
    qed
  qed
  from b have step: "u1 \<inter> added = upd \<inter> added \<and>
      (\<forall>r \<in> set c1. g_id r \<in> added \<longrightarrow> g_slug r \<in> nil) \<and>
      (\<forall>g \<in> set rest. \<forall>s r. getitem g ''slug'' = Some s \<longrightarrow>
           find (\<lambda>r. g_slug r = s) c1 = Some r \<longrightarrow> g_id r \<in> added \<longrightarrow>
           getitem g ''updated'' = Some (g_updated r))"
  proof (cases rule: sync_game_cases)
    case (no_local slug)
    then show ?thesis using A I_rest by simp
  next
    case (no_sync slug r ru)
    then show ?thesis using A I_rest by simp
  next
    case (stale slug r ru year steamid)
    have slug: "slug = sg" using stale(1) sg by simp
    have "g_id r \<notin> added"
    proof
      assume "g_id r \<in> added"
      then have "getitem g ''updated'' = Some (g_updated r)"
        using I stale(1,2) by simp
      then have "ru = g_updated r" using stale(3) by simp
      then show False using stale(4) py_gt_irrefl by simp
    qed
    then have "u1 \<inter> added = upd \<inter> added" using stale(7) by auto
    then show ?thesis using written [OF stale(2) [unfolded slug] stale(8) [unfolded slug]] by simp
  next
    case (backfill slug r ru year steamid)
    have slug: "slug = sg" using backfill(1) sg by simp
    show ?thesis
      using written [OF backfill(2) [unfolded slug] backfill(9) [unfolded slug]] backfill(8)
      by simp
  qed
  show ?case
    using Cons.IH [OF l ss' d' step [THEN conjunct2, THEN conjunct1]
        step [THEN conjunct2, THEN conjunct2]] step
    by simp
qed

text \<open>
  Claim C8, as stated: \<open>added\<close> and \<open>updated\<close> are disjoint for any remote catalog.
  With an empty library and two remote entries of the slug \<open>doom\<close>, both are inserted;
  the second, newer one is then compared with the row inserted for the first and updates
  it, so the identifier 1 is in both sets.
\<close>

theorem added_and_updated_overlap:
  "sync_from_remote (Sync_init []) (Inr [doom_old, doom_new]) [] =
     Some (({1, 2}, {1}),
           get_games [(new_row 1 doom_old)\<lparr>g_year := PNone, g_updated := PInt 200\<rparr>,
                      new_row 2 doom_new],
           [(new_row 1 doom_old)\<lparr>g_year := PNone, g_updated := PInt 200\<rparr>,
            new_row 2 doom_new],
           [Add_games_bulk [doom_old, doom_new],
            Add_or_update \<lparr>au_name = PStr ''Doom'', au_runner = PNone, au_slug = PStr ''doom'',
                           au_year = PNone, au_updated = PInt 200, au_steamid = PNone\<rparr>,
            Download_icon (PStr ''doom'') ''banner'' True,
            Download_icon (PStr ''doom'') ''icon'' True]) \<and>
   {1, 2} \<inter> {1 :: int} \<noteq> {}"
  by (simp add: sync_from_remote_def Sync_init_def get_games_def sync_missing_games_def
      sync_game_details_def sync_game_def doom_old_def doom_new_def getitem_def
      get_game_by_field_def row_dict_def sync_flags_def key_in_def add_or_update_def
      write_args_def next_id_def new_row_def field_or_none_def)

text \<open>
  Claim C8, amended: \<open>added\<close> and \<open>updated\<close> are disjoint whenever no two remote
  entries whose slug is missing from the library share a slug.
\<close>

theorem added_updated_disjoint:
  assumes "sync_from_remote library (Inr remote_library) st =
             Some ((added, updated), library', st', log)"
    and "slugs_of library = Some local_slugs"
    and "slugs_of remote_library = Some remote_slugs"
    and "distinct (filter (\<lambda>slug. slug \<notin> set local_slugs) remote_slugs)"
  shows "added \<inter> updated = {}"
proof -
  define nil where "nil = set remote_slugs - set local_slugs"
  from assms(1,2,3) obtain st1 log1 log2 where
    m: "sync_missing_games nil remote_library st = Some (added, st1, log1)"
    and dt: "sync_game_details remote_library st1 = Some (updated, st', log2)"
    by (auto simp: sync_from_remote_def nil_def split: bind_splits)
  show ?thesis
  proof (cases "nil = {}")
    case True
    then show ?thesis using m by (simp add: sync_missing_games_def)
  next
    case False
    from m False obtain missing ids where
      mr: "missing_records nil remote_library = Some missing"
      and ab: "add_games_bulk missing st = (ids, st1)" and added: "added = set ids"
      by (auto simp: sync_missing_games_def split: bind_splits prod.splits)
    from add_games_bulk_rows [OF ab] obtain rows where
      st1: "st1 = st @ rows" and ids: "map g_id rows = ids"
      and rows: "\<forall>r \<in> set rows. \<exists>d \<in> set missing. \<exists>i. r = new_row i d"
      and old: "\<forall>i \<in> set ids. \<forall>r \<in> set st. g_id r < i"
      by blast
    have fresh: "r \<in> set rows" if "r \<in> set st1" and "g_id r \<in> added" for r
      using that old added st1 by fastforce
    have origin: "\<exists>g \<in> set remote_library. getitem g ''slug'' = Some (g_slug r) \<and>
        g_slug r \<in> nil \<and> getitem g ''updated'' = Some (g_updated r)"
      if "r \<in> set rows" for r
    proof -
      from rows that obtain d i where d: "d \<in> set missing" and r: "r = new_row i d"
        by blast
      from missing_records_origin [OF mr d] show ?thesis
        unfolding r by (auto simp: new_row_def)
    qed
    have d': "distinct (filter (\<lambda>s. s \<in> nil) remote_slugs)"
    proof -
      have "filter (\<lambda>s. s \<in> nil) remote_slugs =
            filter (\<lambda>slug. slug \<notin> set local_slugs) remote_slugs"
        by (rule filter_cong) (auto simp: nil_def)
      then show ?thesis using assms(4) by simp
    qed
    have A: "\<forall>r \<in> set st1. g_id r \<in> added \<longrightarrow> g_slug r \<in> nil"
      using fresh origin by blast
    have I: "\<forall>g \<in> set remote_library. \<forall>s r. getitem g ''slug'' = Some s \<longrightarrow>
           find (\<lambda>r. g_slug r = s) st1 = Some r \<longrightarrow> g_id r \<in> added \<longrightarrow>
           getitem g ''updated'' = Some (g_updated r)"
    proof (intro ballI allI impI)
      fix g s r
      assume g: "g \<in> set remote_library" and s: "getitem g ''slug'' = Some s"
        and f: "find (\<lambda>r. g_slug r = s) st1 = Some r" and ra: "g_id r \<in> added"
      have rs: "g_slug r = s" and rin: "r \<in> set st1"
        using find_Some_props [OF f] by simp_all
      from origin [OF fresh [OF rin ra]] obtain g0 where
        g0: "g0 \<in> set remote_library" "getitem g0 ''slug'' = Some s" "s \<in> nil"
            "getitem g0 ''updated'' = Some (g_updated r)"
        using rs by auto
      have "g = g0"
        using same_missing_slug_same_game [OF assms(3) d' g g0(1) s g0(2) g0(3)] .
      then show "getitem g ''updated'' = Some (g_updated r)" using g0(4) by simp
    qed
    note games = sync_game_details_games [OF dt]
    from sync_games_fresh_not_updated [OF games assms(3) d' A I]
    show ?thesis by auto
  qed
qed

lemma remote_example:
  "sync_from_remote (Sync_init [doom_local]) (Inr [doom_new, quake_remote]) [doom_local] =
     Some (({2}, {1}),
           get_games [doom_local\<lparr>g_updated := PInt 200\<rparr>, new_row 2 quake_remote],
           [doom_local\<lparr>g_updated := PInt 200\<rparr>, new_row 2 quake_remote],
           [Add_games_bulk [quake_remote],
            Add_or_update \<lparr>au_name = PStr ''Doom'', au_runner = PNone, au_slug = PStr ''doom'',
                           au_year = PNone, au_updated = PInt 200, au_steamid = PNone\<rparr>,
            Download_icon (PStr ''doom'') ''banner'' True,
            Download_icon (PStr ''doom'') ''icon'' True])"
  by (simp add: sync_from_remote_def Sync_init_def get_games_def sync_missing_games_def
      sync_game_details_def sync_game_def doom_local_def doom_new_def quake_remote_def
      getitem_def get_game_by_field_def row_dict_def sync_flags_def key_in_def
      add_or_update_def write_args_def next_id_def new_row_def field_or_none_def)

theorem added_updated_disjoint_witness:
  "sync_from_remote (Sync_init [doom_local]) (Inr [doom_new, quake_remote]) [doom_local] =
     Some (({2}, {1}),
           get_games [doom_local\<lparr>g_updated := PInt 200\<rparr>, new_row 2 quake_remote],
           [doom_local\<lparr>g_updated := PInt 200\<rparr>, new_row 2 quake_remote],
           [Add_games_bulk [quake_remote],
            Add_or_update \<lparr>au_name = PStr ''Doom'', au_runner = PNone, au_slug = PStr ''doom'',
                           au_year = PNone, au_updated = PInt 200, au_steamid = PNone\<rparr>,
            Download_icon (PStr ''doom'') ''banner'' True,
            Download_icon (PStr ''doom'') ''icon'' True]) \<and>
   slugs_of (Sync_init [doom_local]) = Some [PStr ''doom''] \<and>
   slugs_of [doom_new, quake_remote] = Some [PStr ''doom'', PStr ''quake''] \<and>
   distinct (filter (\<lambda>slug. slug \<notin> set [PStr ''doom'']) [PStr ''doom'', PStr ''quake'']) \<and>
   {2} \<inter> {1 :: int} = {}"
proof -
  note run = remote_example
  have ls: "slugs_of (Sync_init [doom_local]) = Some [PStr ''doom'']"
    by (simp add: Sync_init_def slugs_of_get_games doom_local_def)
  have rs: "slugs_of [doom_new, quake_remote] = Some [PStr ''doom'', PStr ''quake'']"
    by (simp add: doom_new_def quake_remote_def getitem_def)
  have d: "distinct (filter (\<lambda>slug. slug \<notin> set [PStr ''doom''])
             [PStr ''doom'', PStr ''quake''])"
    by simp
  note c = added_updated_disjoint [OF run ls rs d]
  show ?thesis by (intro conjI run ls rs d c)
qed

section \<open>A second pass\<close>
































end
